theory Spec2Isabelle
  imports Main
begin

section \<open>Data model\<close>

text \<open>
  The bot keeps one table, \<^verbatim>\<open>pin_archive_settings\<close>, with the columns
  \<^verbatim>\<open>guild_id INTEGER PRIMARY KEY\<close>, \<^verbatim>\<open>channel_id INTEGER NOT NULL\<close> and
  \<^verbatim>\<open>pin_mode INTEGER NOT NULL\<close>. A table with a primary key is a partial map from the
  key to the other columns. Identifiers are Python integers (\<open>int\<close>); the engine's
  64-bit range is not modelled, every identifier Discord hands out lies within it.
\<close>

datatype PinMode = oldest | newest

datatype error = ValueError | IndexError | AssertionError | AttributeError | HTTPException

text \<open>\<^verbatim>\<open>PinMode.value\<close>: \<^verbatim>\<open>oldest = 1\<close>, \<^verbatim>\<open>newest = 2\<close>.\<close>

fun PinMode_value :: "PinMode \<Rightarrow> int" where
  "PinMode_value oldest = 1"
| "PinMode_value newest = 2"

text \<open>\<^verbatim>\<open>PinMode(n)\<close>: the lookup of a member by its value raises ValueError on any other integer.\<close>

definition PinMode_of_value :: "int \<Rightarrow> error + PinMode" where
  "PinMode_of_value n =
     (if n = 1 then Inr oldest else if n = 2 then Inr newest else Inl ValueError)"

record PinArchiveLocation =
  guild_id :: int
  channel_id :: int
  pin_mode :: PinMode

type_synonym row = "int \<times> int \<times> int"

type_synonym table = "int \<rightharpoonup> int \<times> int"

text \<open>\<^verbatim>\<open>PinArchiveLocation.from_row\<close> and \<^verbatim>\<open>to_row\<close>.\<close>

fun from_row :: "row \<Rightarrow> error + PinArchiveLocation" where
  "from_row (g, c, m) =
     (case PinMode_of_value m of
        Inl e \<Rightarrow> Inl e
      | Inr pm \<Rightarrow> Inr \<lparr>guild_id = g, channel_id = c, pin_mode = pm\<rparr>)"

definition to_row :: "PinArchiveLocation \<Rightarrow> row" where
  "to_row location = (guild_id location, channel_id location, PinMode_value (pin_mode location))"

text \<open>
  The list comprehension \<^verbatim>\<open>[PinArchiveLocation.from_row(row) for row in ...]\<close>: the
  first row that fails to convert raises, and no list is built.
\<close>

fun from_rows :: "row list \<Rightarrow> error + PinArchiveLocation list" where
  "from_rows [] = Inr []"
| "from_rows (r # rs) =
     (case from_row r of
        Inl e \<Rightarrow> Inl e
      | Inr location \<Rightarrow>
          (case from_rows rs of Inl e \<Rightarrow> Inl e | Inr locations \<Rightarrow> Inr (location # locations)))"

section \<open>The SQL statements\<close>

text \<open>
  Each statement is a function of its bound parameters (in the order of the \<^verbatim>\<open>?\<close>
  placeholders) and the table, and gives the table after it and the rows it returns.
  SQLite's operators on integers that are not NULL: \<^verbatim>\<open>a = b\<close> is 1 or 0, and
  \<^verbatim>\<open>a AND b\<close> is 1 when both operands are non-zero and 0 otherwise. \<^verbatim>\<open>=\<close> binds
  tighter than \<^verbatim>\<open>AND\<close>.
\<close>

definition sql_eq :: "int \<Rightarrow> int \<Rightarrow> int" where
  "sql_eq a b = (if a = b then 1 else 0)"

definition sql_and :: "int \<Rightarrow> int \<Rightarrow> int" where
  "sql_and a b = (if a \<noteq> 0 \<and> b \<noteq> 0 then 1 else 0)"

text \<open>\<^verbatim>\<open>SELECT * FROM pin_archive_settings WHERE guild_id = ?;\<close>\<close>

definition SELECT_BY_GUILD_STATEMENT :: "int \<Rightarrow> table \<Rightarrow> table \<times> row list" where
  "SELECT_BY_GUILD_STATEMENT g t =
     (t, case t g of None \<Rightarrow> [] | Some (c, m) \<Rightarrow> [(g, c, m)])"

text \<open>
  \<^verbatim>\<open>INSERT INTO pin_archive_settings (guild_id, channel_id, pin_mode) VALUES (?, ?, ?)
  ON CONFLICT (guild_id) DO UPDATE SET channel_id = EXCLUDED.channel_id,
  pin_mode = EXCLUDED.pin_mode RETURNING *;\<close>
\<close>

definition UPSERT_ARCHIVE_STATEMENT :: "row \<Rightarrow> table \<Rightarrow> table \<times> row list" where
  "UPSERT_ARCHIVE_STATEMENT r t =
     (case r of (g, c, m) \<Rightarrow> (t(g \<mapsto> (c, m)), [(g, c, m)]))"

text \<open>\<^verbatim>\<open>UPDATE pin_archive_settings SET pin_mode = ? WHERE guild_id = ? RETURNING *;\<close>\<close>

definition UPDATE_MODE_STATEMENT :: "int \<Rightarrow> int \<Rightarrow> table \<Rightarrow> table \<times> row list" where
  "UPDATE_MODE_STATEMENT m g t =
     (case t g of
        None \<Rightarrow> (t, [])
      | Some (c0, m0) \<Rightarrow> (t(g \<mapsto> (c0, m)), [(g, c0, m)]))"

text \<open>\<^verbatim>\<open>UPDATE pin_archive_settings SET channel_id = ? WHERE guild_id = ? RETURNING *;\<close>\<close>

definition UPDATE_CHANNEL_STATEMENT :: "int \<Rightarrow> int \<Rightarrow> table \<Rightarrow> table \<times> row list" where
  "UPDATE_CHANNEL_STATEMENT c g t =
     (case t g of
        None \<Rightarrow> (t, [])
      | Some (c0, m0) \<Rightarrow> (t(g \<mapsto> (c, m0)), [(g, c, m0)]))"

text \<open>
  \<^verbatim>\<open>UPDATE pin_archive_settings SET channel_id = ? and pin_mode = ? WHERE guild_id = ?
  RETURNING *;\<close>
  The \<^verbatim>\<open>SET\<close> clause holds a single assignment: \<^verbatim>\<open>channel_id\<close> receives the value
  of the expression \<^verbatim>\<open>? AND (pin_mode = ?)\<close>, evaluated on the row before the update;
  \<^verbatim>\<open>pin_mode\<close> is not assigned.
\<close>

definition UPDATE_CHANNEL_AND_MODE_STATEMENT ::
  "int \<Rightarrow> int \<Rightarrow> int \<Rightarrow> table \<Rightarrow> table \<times> row list" where
  "UPDATE_CHANNEL_AND_MODE_STATEMENT c m g t =
     (case t g of
        None \<Rightarrow> (t, [])
      | Some (c0, m0) \<Rightarrow>
          (let c' = sql_and c (sql_eq m0 m) in (t(g \<mapsto> (c', m0)), [(g, c', m0)])))"

text \<open>\<^verbatim>\<open>DELETE FROM pin_archive_settings WHERE guild_id = ?;\<close>\<close>

definition DROP_ARCHIVE_STATEMENT :: "int \<Rightarrow> table \<Rightarrow> table \<times> row list" where
  "DROP_ARCHIVE_STATEMENT g t = (t(g := None), [])"

section \<open>Database helpers\<close>

text \<open>
  \<^verbatim>\<open>_query\<close>, \<^verbatim>\<open>_upsert\<close> and \<^verbatim>\<open>_drop\<close> run one statement inside \<^verbatim>\<open>with conn:\<close>,
  a transaction that commits when the block ends and rolls back when it raises. The
  table comes back with the result: unchanged when the conversion of a returned row raised.
\<close>

definition query ::
  "table \<Rightarrow> (table \<Rightarrow> table \<times> row list) \<Rightarrow> (error + PinArchiveLocation list) \<times> table" where
  "query conn query_str =
     (case query_str conn of
        (conn', rows) \<Rightarrow>
          (case from_rows rows of
             Inl e \<Rightarrow> (Inl e, conn)
           | Inr locations \<Rightarrow> (Inr locations, conn')))"

definition upsert ::
  "table \<Rightarrow> PinArchiveLocation \<Rightarrow> (error + PinArchiveLocation list) \<times> table" where
  "upsert conn location =
     (case UPSERT_ARCHIVE_STATEMENT (to_row location) conn of
        (conn', rows) \<Rightarrow>
          (case from_rows rows of
             Inl e \<Rightarrow> (Inl e, conn)
           | Inr locations \<Rightarrow> (Inr locations, conn')))"

definition drop_db :: "table \<Rightarrow> int \<Rightarrow> table" where
  "drop_db conn g = fst (DROP_ARCHIVE_STATEMENT g conn)"

section \<open>The bot and its store methods\<close>

text \<open>
  The client's mutable state: the database connection and the guard stack, a
  \<^verbatim>\<open>deque\<close> used from its right end only (\<^verbatim>\<open>append\<close>, \<^verbatim>\<open>pop\<close>).
\<close>

record bot =
  db_connection :: table
  guard_stack :: "int list"

text \<open>\<^verbatim>\<open>PinArchiverBot.__init__\<close>: the guard starts as an empty deque.\<close>

definition init_bot :: "table \<Rightarrow> bot" where
  "init_bot conn = \<lparr>db_connection = conn, guard_stack = []\<rparr>"

text \<open>\<^verbatim>\<open>locations[0] if locations else None\<close>\<close>

definition first_location :: "PinArchiveLocation list \<Rightarrow> PinArchiveLocation option" where
  "first_location locations = (case locations of [] \<Rightarrow> None | l # _ \<Rightarrow> Some l)"

definition returning ::
  "bot \<Rightarrow> (error + PinArchiveLocation list) \<times> table \<Rightarrow> (error + PinArchiveLocation option) \<times> bot" where
  "returning b res =
     (case res of
        (Inl e, conn) \<Rightarrow> (Inl e, b\<lparr>db_connection := conn\<rparr>)
      | (Inr locations, conn) \<Rightarrow> (Inr (first_location locations), b\<lparr>db_connection := conn\<rparr>))"

definition upsert_archive_channel ::
  "bot \<Rightarrow> int \<Rightarrow> int \<Rightarrow> PinMode \<Rightarrow> (error + PinArchiveLocation option) \<times> bot" where
  "upsert_archive_channel b g c m =
     (let new_location = \<lparr>guild_id = g, channel_id = c, pin_mode = m\<rparr>
      in returning b (upsert (db_connection b) new_location))"

definition get_archive_channel :: "bot \<Rightarrow> int \<Rightarrow> (error + PinArchiveLocation option) \<times> bot" where
  "get_archive_channel b g = returning b (query (db_connection b) (SELECT_BY_GUILD_STATEMENT g))"

text \<open>
  \<^verbatim>\<open>update_archive_channel(guild_id, channel, pin_mode)\<close>: \<open>channel\<close> is the identifier
  of the text channel given, or None; a channel object and an enum member are both
  truthy, so \<^verbatim>\<open>if channel and pin_mode\<close> tests that both were given.
\<close>

definition update_archive_channel ::
  "bot \<Rightarrow> int \<Rightarrow> int option \<Rightarrow> PinMode option \<Rightarrow> (error + PinArchiveLocation option) \<times> bot" where
  "update_archive_channel b g channel pm =
     (case (channel, pm) of
        (Some c, Some m) \<Rightarrow>
          returning b (query (db_connection b)
            (UPDATE_CHANNEL_AND_MODE_STATEMENT c (PinMode_value m) g))
      | (Some c, None) \<Rightarrow>
          returning b (query (db_connection b) (UPDATE_CHANNEL_STATEMENT c g))
      | (None, Some m) \<Rightarrow>
          returning b (query (db_connection b) (UPDATE_MODE_STATEMENT (PinMode_value m) g))
      | (None, None) \<Rightarrow> (Inr None, b))"

section \<open>The platform\<close>

text \<open>
  A pinned message, with the parts \<^verbatim>\<open>create_pin_embed\<close> reads that decide the shape of
  the embed (the author, timestamp, colour and footer are display only and left out).
\<close>

record Message =
  message_id :: int
  message_content :: string
  jump_url :: string
  attachments :: "string list"

record Embed =
  description :: string
  source_field :: string
  image :: "string option"

definition create_pin_embed :: "Message \<Rightarrow> Embed" where
  "create_pin_embed message =
     \<lparr>description = message_content message,
      source_field = ''[Jump!]('' @ jump_url message @ '')'',
      image = (case attachments message of [] \<Rightarrow> None | a # _ \<Rightarrow> Some a)\<rparr>"

text \<open>The channel an event names: \<^verbatim>\<open>channel.guild.id\<close> and \<^verbatim>\<open>channel.id\<close>.\<close>

record Channel =
  channel_guild :: int
  channel_ident :: int

text \<open>
  What the platform answers during one run of the event handler: the outcome of
  \<^verbatim>\<open>channel.pins()\<close>, whether \<^verbatim>\<open>guild.get_channel(id)\<close> is a text channel, and the
  exceptions \<^verbatim>\<open>pin.unpin\<close> and \<^verbatim>\<open>archive_channel.send\<close> raise, if any.
\<close>

record platform =
  pins_result :: "error + Message list"
  is_text_channel :: "int \<Rightarrow> bool"
  unpin_result :: "error option"
  send_result :: "error option"

text \<open>The calls the handler makes, in order.\<close>

datatype action =
  FetchPins int
| Unpin int
| Send int Embed
| LogException
| LogInfo

text \<open>
  Python indexing of a list: a negative index counts from the end, an index out of
  range raises IndexError.
\<close>

definition py_index :: "'a list \<Rightarrow> int \<Rightarrow> error + 'a" where
  "py_index xs i =
     (if 0 \<le> i \<and> i < int (length xs) then Inr (xs ! nat i)
      else if i < 0 \<and> - int (length xs) \<le> i then Inr (xs ! nat (int (length xs) + i))
      else Inl IndexError)"

text \<open>\<^verbatim>\<open>deque.pop()\<close> and \<^verbatim>\<open>deque.append(x)\<close>, both at the right end.\<close>

definition deque_pop :: "int list \<Rightarrow> error + int \<times> int list" where
  "deque_pop stack = (if stack = [] then Inl IndexError else Inr (last stack, butlast stack))"

definition deque_append :: "int list \<Rightarrow> int \<Rightarrow> int list" where
  "deque_append stack x = stack @ [x]"

section \<open>The event handler\<close>

text \<open>
  Line 322: \<^verbatim>\<open>pin = current_pins[-1] if (location.pin_mode is PinMode.oldest) else
  current_pins[0]\<close>.
\<close>

definition select_pin :: "PinMode \<Rightarrow> Message list \<Rightarrow> error + Message" where
  "select_pin m current_pins =
     (if m = oldest then py_index current_pins (- 1) else py_index current_pins 0)"

text \<open>
  Lines 323 to 329, the guard: pop the stack; on IndexError append the identifier of the
  pin; otherwise return from the handler when the popped identifier equals it. The
  result is the stack afterwards and whether the handler goes on.
\<close>

definition guard_check :: "int list \<Rightarrow> int \<Rightarrow> int list \<times> bool" where
  "guard_check stack pin_id =
     (case deque_pop stack of
        Inl e \<Rightarrow> (deque_append stack pin_id, True)
      | Inr (old_pin, stack') \<Rightarrow> (stack', old_pin \<noteq> pin_id))"

text \<open>
  The clause \<^verbatim>\<open>except (IndexError, discord.HTTPException)\<close> of the inner block, and the
  \<^verbatim>\<open>log.info\<close> that ends the handler: a caught exception is logged, any other leaves
  the handler.
\<close>

definition caught_inner :: "error \<Rightarrow> action list \<Rightarrow> bot \<Rightarrow> error option \<times> action list \<times> bot" where
  "caught_inner e acts b =
     (if e = IndexError \<or> e = HTTPException then (None, acts @ [LogException, LogInfo], b)
      else (Some e, acts, b))"

text \<open>Lines 323 to 337 for a selected pin: the guard, then unpin and send.\<close>

definition guard_and_move ::
  "bot \<Rightarrow> platform \<Rightarrow> PinArchiveLocation \<Rightarrow> Message \<Rightarrow> error option \<times> action list \<times> bot" where
  "guard_and_move b env location pin =
     (case guard_check (guard_stack b) (message_id pin) of
        (stack', proceed) \<Rightarrow>
          (let b' = b\<lparr>guard_stack := stack'\<rparr> in
           if \<not> proceed then (None, [], b')
           else
             (case unpin_result env of
                Some e \<Rightarrow> caught_inner e [Unpin (message_id pin)] b'
              | None \<Rightarrow>
                  (let embed = create_pin_embed pin;
                       acts = [Unpin (message_id pin), Send (channel_id location) embed]
                   in case send_result env of
                        Some e \<Rightarrow> caught_inner e acts b'
                      | None \<Rightarrow> (None, acts @ [LogInfo], b')))))"

text \<open>Lines 321 to 337.\<close>

definition relocate ::
  "bot \<Rightarrow> platform \<Rightarrow> PinArchiveLocation \<Rightarrow> Message list \<Rightarrow> error option \<times> action list \<times> bot" where
  "relocate b env location current_pins =
     (case select_pin (pin_mode location) current_pins of
        Inl e \<Rightarrow> caught_inner e [] b
      | Inr pin \<Rightarrow> guard_and_move b env location pin)"

text \<open>
  \<^verbatim>\<open>on_guild_channel_pins_update(channel, last_pin)\<close>. The result is the exception
  that leaves the handler, if any, the calls made, and the bot afterwards.
\<close>

definition on_guild_channel_pins_update ::
  "bot \<Rightarrow> platform \<Rightarrow> Channel \<Rightarrow> error option \<times> action list \<times> bot" where
  "on_guild_channel_pins_update b env channel =
     (case get_archive_channel b (channel_guild channel) of
        (Inl e, b1) \<Rightarrow> (Some e, [], b1)
      | (Inr None, b1) \<Rightarrow> (None, [], b1)
      | (Inr (Some location), b1) \<Rightarrow>
          (case pins_result env of
             Inl e \<Rightarrow>
               (if e = AttributeError \<or> e = HTTPException
                then (None, [FetchPins (channel_ident channel), LogException, LogInfo], b1)
                else (Some e, [FetchPins (channel_ident channel)], b1))
           | Inr current_pins \<Rightarrow>
               (if length current_pins < 49 then (None, [FetchPins (channel_ident channel)], b1)
                else if \<not> is_text_channel env (channel_id location)
                then (Some AssertionError, [FetchPins (channel_ident channel)], b1)
                else
                  (case relocate b1 env location current_pins of
                     (r, acts, b2) \<Rightarrow> (r, FetchPins (channel_ident channel) # acts, b2)))))"

section \<open>Commands\<close>

text \<open>What a command sends back after deferring: an embed of the settings, or a text.\<close>

datatype reply =
  SettingsEmbed string PinArchiveLocation
| TextReply string

definition reply_with ::
  "string \<Rightarrow> (error + PinArchiveLocation option) \<times> bot \<Rightarrow> error option \<times> reply list \<times> bot" where
  "reply_with title res =
     (case res of
        (Inl e, b) \<Rightarrow> (Some e, [], b)
      | (Inr None, b) \<Rightarrow> (None, [], b)
      | (Inr (Some location), b) \<Rightarrow> (None, [SettingsEmbed title location], b))"

definition pin_setup :: "bot \<Rightarrow> int \<Rightarrow> int \<Rightarrow> PinMode \<Rightarrow> error option \<times> reply list \<times> bot" where
  "pin_setup b g archive_channel m =
     reply_with ''Current Pin Archive Settings'' (upsert_archive_channel b g archive_channel m)"

definition pin_update ::
  "bot \<Rightarrow> int \<Rightarrow> int option \<Rightarrow> PinMode option \<Rightarrow> error option \<times> reply list \<times> bot" where
  "pin_update b g archive_channel m =
     (if archive_channel = None \<and> m = None
      then (None, [TextReply ''No new settings put in: No changes made.''], b)
      else reply_with ''Updated Pin Archive Settings'' (update_archive_channel b g archive_channel m))"

definition pin_current :: "bot \<Rightarrow> int \<Rightarrow> error option \<times> reply list \<times> bot" where
  "pin_current b g =
     (case get_archive_channel b g of
        (Inl e, b') \<Rightarrow> (Some e, [], b')
      | (Inr (Some location), b') \<Rightarrow>
          (None, [SettingsEmbed ''Current Pin Archive Settings'' location], b')
      | (Inr None, b') \<Rightarrow>
          (None, [TextReply ''The pin archive has not be set up for this server.''], b'))"

definition pin_disable :: "bot \<Rightarrow> int \<Rightarrow> error option \<times> reply list \<times> bot" where
  "pin_disable b g =
     (None,
      [TextReply
        ''The bot will no longer update the pin archive. To re-enable, use `/pin setup`.''],
      b\<lparr>db_connection := drop_db (db_connection b) g\<rparr>)"

section \<open>Runs of events\<close>

text \<open>
  The client delivers events one after the other to the handler and the commands. The
  guard is read and written between two suspension points of the handler (there is no
  \<^verbatim>\<open>await\<close> from line 322 to line 329), so a run of guard checks is a sequence too.
\<close>

datatype event =
  PinsUpdate platform Channel
| Setup int int PinMode
| Update int "int option" "PinMode option"
| Current int
| Disable int

fun deliver :: "bot \<Rightarrow> event \<Rightarrow> bot" where
  "deliver b (PinsUpdate env channel) = snd (snd (on_guild_channel_pins_update b env channel))"
| "deliver b (Setup g c m) = snd (snd (pin_setup b g c m))"
| "deliver b (Update g c m) = snd (snd (pin_update b g c m))"
| "deliver b (Current g) = snd (snd (pin_current b g))"
| "deliver b (Disable g) = snd (snd (pin_disable b g))"

definition run_events :: "bot \<Rightarrow> event list \<Rightarrow> bot" where
  "run_events b evs = foldl deliver b evs"

definition run_guard :: "int list \<Rightarrow> int list \<Rightarrow> int list" where
  "run_guard stack pin_ids = foldl (\<lambda>s p. fst (guard_check s p)) stack pin_ids"

section \<open>The pin the handler is meant to move\<close>

text \<open>
  The end of the pin list that line 322 reads: the last element for \<open>oldest\<close>, the first
  for \<open>newest\<close>. It is total, and agrees with \<open>select_pin\<close> on every list that is not
  empty (lemma \<open>select_pin_candidate\<close>).
\<close>

definition candidate :: "PinMode \<Rightarrow> Message list \<Rightarrow> Message" where
  "candidate m pins = (case m of oldest \<Rightarrow> last pins | newest \<Rightarrow> hd pins)"

section \<open>Example values\<close>

abbreviation example_message :: "int \<Rightarrow> Message" where
  "example_message i \<equiv>
     \<lparr>message_id = i, message_content = ''pinned'', jump_url = ''https://discord.com/channels/1/5/1'',
      attachments = []\<rparr>"

abbreviation example_platform :: "Message list \<Rightarrow> platform" where
  "example_platform pins \<equiv>
     \<lparr>pins_result = Inr pins, is_text_channel = (\<lambda>i. i = 100), unpin_result = None,
      send_result = None\<rparr>"

abbreviation example_channel :: Channel where
  "example_channel \<equiv> \<lparr>channel_guild = 1, channel_ident = 5\<rparr>"

abbreviation example_bot :: bot where
  "example_bot \<equiv> \<lparr>db_connection = [1 \<mapsto> (100, 1)], guard_stack = []\<rparr>"

section \<open>Store properties\<close>

lemma PinMode_roundtrip: "PinMode_of_value (PinMode_value m) = Inr m"
  by (cases m) (simp_all add: PinMode_of_value_def)

lemma from_row_to_row: "from_row (to_row location) = Inr location"
  by (simp add: to_row_def PinMode_roundtrip)

lemma from_rows_single:
  "from_rows [(g, c, PinMode_value m)] = Inr [\<lparr>guild_id = g, channel_id = c, pin_mode = m\<rparr>]"
  by (simp add: PinMode_roundtrip)

lemma get_stored:
  assumes "db_connection b g = Some (c, PinMode_value m)"
  shows "get_archive_channel b g = (Inr (Some \<lparr>guild_id = g, channel_id = c, pin_mode = m\<rparr>), b)"
  using assms
  by (simp add: get_archive_channel_def returning_def query_def SELECT_BY_GUILD_STATEMENT_def
      PinMode_roundtrip first_location_def)

lemma get_absent:
  assumes "db_connection b g = None"
  shows "get_archive_channel b g = (Inr None, b)"
  using assms
  by (simp add: get_archive_channel_def returning_def query_def SELECT_BY_GUILD_STATEMENT_def
      first_location_def)

lemma returning_same [simp]:
  "returning b (Inr locations, db_connection b) = (Inr (first_location locations), b)"
  "returning b (Inl e, db_connection b) = (Inl e, b)"
  by (simp_all add: returning_def)

lemma update_both_stored:
  assumes "db_connection b g = Some (c0, PinMode_value m0)"
  shows "update_archive_channel b g (Some c) (Some m) =
     (Inr (Some \<lparr>guild_id = g, channel_id = (if c \<noteq> 0 \<and> m0 = m then 1 else 0), pin_mode = m0\<rparr>),
      b\<lparr>db_connection := (db_connection b)(g \<mapsto> ((if c \<noteq> 0 \<and> m0 = m then 1 else 0), PinMode_value m0))\<rparr>)"
proof -
  have inj: "(PinMode_value m0 = PinMode_value m) = (m0 = m)"
    by (cases m0; cases m) simp_all
  show ?thesis
    using assms
    by (simp add: update_archive_channel_def query_def UPDATE_CHANNEL_AND_MODE_STATEMENT_def
        sql_and_def sql_eq_def inj returning_def PinMode_roundtrip first_location_def)
qed

text \<open>
  Claim C1: for a guild with a stored row, \<open>update_archive_channel\<close> with both a channel and
  a mode leaves a row whose \<open>channel_id\<close> is the channel given and whose \<open>pin_mode\<close> is the
  mode given. The code does not: the statement it runs assigns a truth value to
  \<open>channel_id\<close> and leaves \<open>pin_mode\<close> as it was (lemma \<open>update_both_stored\<close>). On the
  stored row (1, 100, oldest), an update to channel 200 and mode \<open>newest\<close> returns and stores
  (1, 0, oldest).
\<close>

theorem C1_update_channel_and_mode_loses_both:
  "update_archive_channel \<lparr>db_connection = [1 \<mapsto> (100, 1)], guard_stack = []\<rparr> 1 (Some 200) (Some newest)
     = (Inr (Some \<lparr>guild_id = 1, channel_id = 0, pin_mode = oldest\<rparr>),
        \<lparr>db_connection = [1 \<mapsto> (0, 1)], guard_stack = []\<rparr>)"
  by (simp add: update_archive_channel_def query_def UPDATE_CHANNEL_AND_MODE_STATEMENT_def
      sql_and_def sql_eq_def returning_def PinMode_of_value_def first_location_def)

text \<open>
  Claim C5: for every guild, channel and mode, \<open>upsert_archive_channel\<close> returns the location
  (guild, channel, mode), stores its row, and a following \<open>get_archive_channel\<close> for the
  guild returns exactly that location and leaves the bot as it is.
\<close>

theorem C5_upsert_then_get:
  "fst (upsert_archive_channel b g c m)
     = Inr (Some \<lparr>guild_id = g, channel_id = c, pin_mode = m\<rparr>)
   \<and> snd (upsert_archive_channel b g c m)
     = b\<lparr>db_connection := (db_connection b)(g \<mapsto> (c, PinMode_value m))\<rparr>
   \<and> get_archive_channel (snd (upsert_archive_channel b g c m)) g
     = (Inr (Some \<lparr>guild_id = g, channel_id = c, pin_mode = m\<rparr>),
        snd (upsert_archive_channel b g c m))"
proof -
  have u: "upsert_archive_channel b g c m =
      (Inr (Some \<lparr>guild_id = g, channel_id = c, pin_mode = m\<rparr>),
       b\<lparr>db_connection := (db_connection b)(g \<mapsto> (c, PinMode_value m))\<rparr>)"
    by (simp add: upsert_archive_channel_def upsert_def UPSERT_ARCHIVE_STATEMENT_def to_row_def
        PinMode_roundtrip returning_def first_location_def)
  show ?thesis
    unfolding u by (simp add: get_stored)
qed

text \<open>
  Claim C6: for a guild whose stored row is the location (g, c0, m0),
  \<open>update_archive_channel\<close> with only a channel stores and returns (g, c, m0), with only a
  mode stores and returns (g, c0, m), every other row untouched; with neither it returns
  None and the bot is unchanged.
\<close>

theorem C6_update_partial:
  assumes "db_connection b g = Some (c0, PinMode_value m0)"
  shows "update_archive_channel b g (Some c) None =
           (Inr (Some \<lparr>guild_id = g, channel_id = c, pin_mode = m0\<rparr>),
            b\<lparr>db_connection := (db_connection b)(g \<mapsto> (c, PinMode_value m0))\<rparr>)
       \<and> update_archive_channel b g None (Some m) =
           (Inr (Some \<lparr>guild_id = g, channel_id = c0, pin_mode = m\<rparr>),
            b\<lparr>db_connection := (db_connection b)(g \<mapsto> (c0, PinMode_value m))\<rparr>)
       \<and> update_archive_channel b g None None = (Inr None, b)"
  using assms
  by (simp add: update_archive_channel_def query_def UPDATE_CHANNEL_STATEMENT_def
      UPDATE_MODE_STATEMENT_def returning_def PinMode_roundtrip first_location_def)

theorem C6_update_partial_witness:
  "update_archive_channel example_bot 1 (Some 200) None =
     (Inr (Some \<lparr>guild_id = 1, channel_id = 200, pin_mode = oldest\<rparr>),
      \<lparr>db_connection = [1 \<mapsto> (200, 1)], guard_stack = []\<rparr>)
   \<and> update_archive_channel example_bot 1 None (Some newest) =
     (Inr (Some \<lparr>guild_id = 1, channel_id = 100, pin_mode = newest\<rparr>),
      \<lparr>db_connection = [1 \<mapsto> (100, 2)], guard_stack = []\<rparr>)
   \<and> update_archive_channel example_bot 1 None None = (Inr None, example_bot)"
  using C6_update_partial [of example_bot 1 100 oldest 200 newest] by simp

text \<open>
  Claim C9: the disable command never raises, whether or not the guild has a row, and
  stores the table with the guild's row dropped; dropping a guild that has no row leaves
  the table exactly as it was; dropping twice is dropping once, for the table and for the
  command.
\<close>

theorem C9_delete_idempotent:
  "fst (pin_disable b g) = None
   \<and> db_connection (snd (snd (pin_disable b g))) = drop_db (db_connection b) g
   \<and> (t g = None \<longrightarrow> drop_db t g = t)
   \<and> drop_db (drop_db t g) g = drop_db t g
   \<and> snd (snd (pin_disable (snd (snd (pin_disable b g))) g)) = snd (snd (pin_disable b g))"
  by (auto simp add: pin_disable_def drop_db_def DROP_ARCHIVE_STATEMENT_def)

theorem C9_delete_idempotent_witness:
  "[1 \<mapsto> (100, 1)] (2::int) = None
   \<and> drop_db [1 \<mapsto> (100, 1)] 2 = [1 \<mapsto> (100, 1)]
   \<and> fst (pin_disable example_bot 2) = None
   \<and> db_connection (snd (snd (pin_disable example_bot 2))) = [1 \<mapsto> (100, 1)]"
  using C9_delete_idempotent [of example_bot 2 "[1 \<mapsto> (100, 1)]"] by simp

section \<open>Guard properties\<close>

lemma guard_check_empty: "guard_check [] p = ([p], True)"
  by (simp add: guard_check_def deque_pop_def deque_append_def)

lemma guard_check_snoc: "guard_check (s @ [q]) p = (s, q \<noteq> p)"
  by (simp add: guard_check_def deque_pop_def)

lemma guard_check_single: "guard_check [q] p = ([], q \<noteq> p)"
  using guard_check_snoc [of "[]" q p] by simp

lemma guard_check_length: "length s \<le> Suc 0 \<Longrightarrow> length (fst (guard_check s p)) \<le> Suc 0"
proof (cases s rule: rev_cases)
  case Nil
  then show ?thesis by (simp add: guard_check_empty)
next
  case (snoc ys y)
  assume "length s \<le> Suc 0"
  with snoc have "ys = []" by simp
  with snoc show ?thesis by (simp add: guard_check_single)
qed

lemma run_guard_length: "length s \<le> Suc 0 \<Longrightarrow> length (run_guard s ps) \<le> Suc 0"
  unfolding run_guard_def
proof (induction ps arbitrary: s)
  case Nil
  then show ?case by simp
next
  case (Cons p ps)
  from Cons.prems have "length (fst (guard_check s p)) \<le> Suc 0"
    by (rule guard_check_length)
  then show ?case using Cons.IH by simp
qed

section \<open>Handler properties\<close>

lemma select_pin_oldest: "xs \<noteq> [] \<Longrightarrow> select_pin oldest xs = Inr (last xs)"
proof -
  assume ne: "xs \<noteq> []"
  then have len: "Suc 0 \<le> length xs"
    by (cases xs) simp_all
  then have "nat (int (length xs) + - 1) = length xs - 1"
    by simp
  with ne len show ?thesis
    by (simp add: select_pin_def py_index_def last_conv_nth)
qed

lemma select_pin_newest: "xs \<noteq> [] \<Longrightarrow> select_pin newest xs = Inr (hd xs)"
  by (simp add: select_pin_def py_index_def hd_conv_nth)

lemma select_pin_candidate: "xs \<noteq> [] \<Longrightarrow> select_pin m xs = Inr (candidate m xs)"
  by (cases m) (simp_all add: candidate_def select_pin_oldest select_pin_newest)

lemma handler_relocates:
  assumes "db_connection b (channel_guild ch) = Some (c, PinMode_value m)"
    and "pins_result env = Inr pins"
    and "49 \<le> length pins"
    and "is_text_channel env c"
  shows "on_guild_channel_pins_update b env ch =
     (case guard_and_move b env \<lparr>guild_id = channel_guild ch, channel_id = c, pin_mode = m\<rparr>
             (candidate m pins) of
        (r, acts, b2) \<Rightarrow> (r, FetchPins (channel_ident ch) # acts, b2))"
proof -
  from assms(3) have ne: "pins \<noteq> []" by auto
  show ?thesis
    using assms
    by (simp add: on_guild_channel_pins_update_def get_stored relocate_def
        select_pin_candidate [OF ne])
qed

lemma caught_inner_shape:
  "\<exists>r extra. caught_inner e acts b = (r, acts @ extra, b)"
  by (simp add: caught_inner_def)

lemma guard_and_move_suppressed:
  assumes "guard_check (guard_stack b) (message_id pin) = (s', False)"
  shows "guard_and_move b env location pin = (None, [], b\<lparr>guard_stack := s'\<rparr>)"
  using assms by (simp add: guard_and_move_def)

lemma guard_and_move_proceeds:
  assumes "guard_check (guard_stack b) (message_id pin) = (s', True)"
  shows "\<exists>r acts. guard_and_move b env location pin = (r, acts, b\<lparr>guard_stack := s'\<rparr>)
           \<and> Unpin (message_id pin) \<in> set acts"
  using assms
  by (auto simp add: guard_and_move_def Let_def caught_inner_def split: option.splits)

lemma guard_and_move_stack:
  "guard_stack (snd (snd (guard_and_move b env location pin)))
     = fst (guard_check (guard_stack b) (message_id pin))"
  by (auto simp add: guard_and_move_def Let_def caught_inner_def split: option.splits prod.splits)

lemma guard_and_move_db:
  "db_connection (snd (snd (guard_and_move b env location pin))) = db_connection b"
  by (auto simp add: guard_and_move_def Let_def caught_inner_def split: option.splits prod.splits)

lemma handler_stack_and_db:
  "length (guard_stack b) \<le> Suc 0 \<Longrightarrow>
   length (guard_stack (snd (snd (on_guild_channel_pins_update b env ch)))) \<le> Suc 0"
proof -
  assume inv: "length (guard_stack b) \<le> Suc 0"
  have g: "\<And>location pin.
      length (guard_stack (snd (snd (guard_and_move b env location pin)))) \<le> Suc 0"
    by (simp add: guard_and_move_stack guard_check_length [OF inv])
  have c: "\<And>e acts. guard_stack (snd (snd (caught_inner e acts b))) = guard_stack b"
    by (simp add: caught_inner_def)
  have r: "\<And>location pins.
      length (guard_stack (snd (snd (relocate b env location pins)))) \<le> Suc 0"
    by (simp add: relocate_def g c inv split: sum.splits)
  have q: "\<And>g. snd (get_archive_channel b g) = b"
    by (simp add: get_archive_channel_def query_def SELECT_BY_GUILD_STATEMENT_def
        split: sum.splits option.splits prod.splits)
  obtain res where ga: "get_archive_channel b (channel_guild ch) = (res, b)"
    using q [of "channel_guild ch"] by (cases "get_archive_channel b (channel_guild ch)") simp
  show ?thesis
    using inv r
    by (simp add: on_guild_channel_pins_update_def ga case_prod_beta
        split: sum.splits option.splits)
qed

lemma returning_stack: "guard_stack (snd (returning b res)) = guard_stack b"
  by (cases res) (simp add: returning_def split: sum.splits)

lemma reply_with_stack: "guard_stack (snd (snd (reply_with title res))) = guard_stack (snd res)"
  by (cases res) (simp add: reply_with_def split: sum.splits option.splits)

lemma upsert_archive_channel_stack:
  "guard_stack (snd (upsert_archive_channel b g c m)) = guard_stack b"
  by (simp add: upsert_archive_channel_def returning_stack)

lemma get_archive_channel_stack: "guard_stack (snd (get_archive_channel b g)) = guard_stack b"
  by (simp add: get_archive_channel_def returning_stack)

lemma update_archive_channel_stack:
  "guard_stack (snd (update_archive_channel b g c m)) = guard_stack b"
  by (cases c; cases m) (simp_all add: update_archive_channel_def returning_stack)

lemma pin_current_stack: "guard_stack (snd (snd (pin_current b g))) = guard_stack b"
proof (cases "get_archive_channel b g")
  case (Pair res b')
  with get_archive_channel_stack [of b g] have "guard_stack b' = guard_stack b" by simp
  with Pair show ?thesis
    by (simp add: pin_current_def split: sum.splits option.splits)
qed

lemma deliver_stack:
  "length (guard_stack b) \<le> Suc 0 \<Longrightarrow> length (guard_stack (deliver b ev)) \<le> Suc 0"
proof (cases ev)
  case (PinsUpdate env ch)
  assume "length (guard_stack b) \<le> Suc 0"
  then show ?thesis unfolding PinsUpdate by (simp add: handler_stack_and_db)
next
  case (Setup g c m)
  assume "length (guard_stack b) \<le> Suc 0"
  then show ?thesis unfolding Setup
    by (simp add: pin_setup_def reply_with_stack upsert_archive_channel_stack)
next
  case (Update g c m)
  assume "length (guard_stack b) \<le> Suc 0"
  then show ?thesis unfolding Update
    by (simp add: pin_update_def reply_with_stack update_archive_channel_stack)
next
  case (Current g)
  assume "length (guard_stack b) \<le> Suc 0"
  then show ?thesis unfolding Current by (simp add: pin_current_stack)
next
  case (Disable g)
  assume "length (guard_stack b) \<le> Suc 0"
  then show ?thesis unfolding Disable by (simp add: pin_disable_def)
qed

lemma run_events_stack:
  "length (guard_stack b) \<le> Suc 0 \<Longrightarrow> length (guard_stack (run_events b evs)) \<le> Suc 0"
  unfolding run_events_def
proof (induction evs arbitrary: b)
  case Nil
  then show ?case by simp
next
  case (Cons ev evs)
  from Cons.prems have "length (guard_stack (deliver b ev)) \<le> Suc 0"
    by (rule deliver_stack)
  then show ?case using Cons.IH by simp
qed

lemma handler_proceeds:
  assumes "db_connection b (channel_guild ch) = Some (c, PinMode_value m)"
    and "pins_result env = Inr pins"
    and "49 \<le> length pins"
    and "is_text_channel env c"
    and "guard_check (guard_stack b) (message_id (candidate m pins)) = (s', True)"
  shows "\<exists>r acts. on_guild_channel_pins_update b env ch
             = (r, FetchPins (channel_ident ch) # acts, b\<lparr>guard_stack := s'\<rparr>)
           \<and> Unpin (message_id (candidate m pins)) \<in> set acts"
proof -
  obtain r acts where
    gm: "guard_and_move b env \<lparr>guild_id = channel_guild ch, channel_id = c, pin_mode = m\<rparr>
           (candidate m pins) = (r, acts, b\<lparr>guard_stack := s'\<rparr>)"
    and un: "Unpin (message_id (candidate m pins)) \<in> set acts"
    using guard_and_move_proceeds [OF assms(5)] by blast
  have "on_guild_channel_pins_update b env ch
          = (r, FetchPins (channel_ident ch) # acts, b\<lparr>guard_stack := s'\<rparr>)"
    using handler_relocates [OF assms(1-4)] gm by simp
  with un show ?thesis by blast
qed

lemma handler_suppressed:
  assumes "db_connection b (channel_guild ch) = Some (c, PinMode_value m)"
    and "pins_result env = Inr pins"
    and "49 \<le> length pins"
    and "is_text_channel env c"
    and "guard_check (guard_stack b) (message_id (candidate m pins)) = (s', False)"
  shows "on_guild_channel_pins_update b env ch
           = (None, [FetchPins (channel_ident ch)], b\<lparr>guard_stack := s'\<rparr>)"
  using handler_relocates [OF assms(1-4)] guard_and_move_suppressed [OF assms(5)] by simp

text \<open>
  Claim C8: for a guild with no stored row, \<open>get_archive_channel\<close> returns None, and the
  handler of a pins update in any channel of that guild makes no call at all (no fetch of
  the pins, no unpin, no send) and leaves the guard and the table unchanged.
\<close>

theorem C8_no_settings_no_action:
  assumes "db_connection b (channel_guild channel) = None"
  shows "get_archive_channel b (channel_guild channel) = (Inr None, b)
       \<and> on_guild_channel_pins_update b env channel = (None, [], b)"
  using assms by (simp add: on_guild_channel_pins_update_def get_absent)

theorem C8_no_settings_no_action_witness:
  "get_archive_channel \<lparr>db_connection = Map.empty, guard_stack = [7]\<rparr> 1
     = (Inr None, \<lparr>db_connection = Map.empty, guard_stack = [7]\<rparr>)
   \<and> on_guild_channel_pins_update \<lparr>db_connection = Map.empty, guard_stack = [7]\<rparr>
       (example_platform (replicate 49 (example_message 11))) example_channel
     = (None, [], \<lparr>db_connection = Map.empty, guard_stack = [7]\<rparr>)"
  using C8_no_settings_no_action [of "\<lparr>db_connection = Map.empty, guard_stack = [7]\<rparr>"
      example_channel "example_platform (replicate 49 (example_message 11))"]
  by simp

text \<open>
  Claim C4: when the channel has fewer than 49 pins, the handler changes nothing (the guard
  stack and the table are as before) and the only call it can have made is the fetch of
  the pins: no pin is selected, unpinned or sent, whatever the table holds for the guild.
\<close>

theorem C4_below_threshold:
  assumes "pins_result env = Inr pins" and "length pins < 49"
  shows "snd (snd (on_guild_channel_pins_update b env ch)) = b
       \<and> fst (snd (on_guild_channel_pins_update b env ch))
           \<in> {[], [FetchPins (channel_ident ch)]}"
proof -
  have q: "snd (get_archive_channel b (channel_guild ch)) = b"
    by (simp add: get_archive_channel_def query_def SELECT_BY_GUILD_STATEMENT_def
        split: sum.splits option.splits prod.splits)
  obtain res where ga: "get_archive_channel b (channel_guild ch) = (res, b)"
    using q by (cases "get_archive_channel b (channel_guild ch)") simp
  show ?thesis
    using assms
    by (simp add: on_guild_channel_pins_update_def ga split: sum.splits option.splits)
qed

theorem C4_below_threshold_witness:
  "length (replicate 48 (example_message 11)) < 49
   \<and> on_guild_channel_pins_update example_bot
        (example_platform (replicate 48 (example_message 11))) example_channel
       = (None, [FetchPins 5], example_bot)"
proof -
  have "on_guild_channel_pins_update example_bot
        (example_platform (replicate 48 (example_message 11))) example_channel
       = (None, [FetchPins 5], example_bot)"
    by (simp add: on_guild_channel_pins_update_def get_archive_channel_def query_def
        SELECT_BY_GUILD_STATEMENT_def PinMode_of_value_def returning_def first_location_def)
  then show ?thesis
    using C4_below_threshold [of "example_platform (replicate 48 (example_message 11))"
        "replicate 48 (example_message 11)" example_bot example_channel]
    by simp
qed

text \<open>
  Claim C3: on a pin list of at least 49 messages, \<open>select_pin\<close> gives the last element for
  \<open>oldest\<close> and the first for \<open>newest\<close>, and the handler (with a stored location whose
  channel is a text channel) does to that message what lines 323 to 337 do: the guard,
  then unpin and send. With the guard empty and the platform accepting both calls, the
  calls are the fetch, the unpin of that message, the send of its embed to the archive
  channel, and the final log entry.
\<close>

theorem C3_candidate_selection:
  assumes "db_connection b (channel_guild ch) = Some (c, PinMode_value m)"
    and "pins_result env = Inr pins"
    and "49 \<le> length pins"
    and "is_text_channel env c"
  shows "select_pin oldest pins = Inr (last pins)
       \<and> select_pin newest pins = Inr (hd pins)
       \<and> on_guild_channel_pins_update b env ch =
           (case guard_and_move b env
                   \<lparr>guild_id = channel_guild ch, channel_id = c, pin_mode = m\<rparr>
                   (case m of oldest \<Rightarrow> last pins | newest \<Rightarrow> hd pins) of
              (r, acts, b2) \<Rightarrow> (r, FetchPins (channel_ident ch) # acts, b2))
       \<and> (guard_stack b = [] \<and> unpin_result env = None \<and> send_result env = None \<longrightarrow>
            on_guild_channel_pins_update b env ch =
              (let pin = (case m of oldest \<Rightarrow> last pins | newest \<Rightarrow> hd pins) in
               (None,
                [FetchPins (channel_ident ch), Unpin (message_id pin),
                 Send c (create_pin_embed pin), LogInfo],
                b\<lparr>guard_stack := [message_id pin]\<rparr>)))"
proof -
  from assms(3) have ne: "pins \<noteq> []" by auto
  have h: "on_guild_channel_pins_update b env ch =
           (case guard_and_move b env
                   \<lparr>guild_id = channel_guild ch, channel_id = c, pin_mode = m\<rparr>
                   (candidate m pins) of
              (r, acts, b2) \<Rightarrow> (r, FetchPins (channel_ident ch) # acts, b2))"
    using assms by (rule handler_relocates)
  have "guard_stack b = [] \<and> unpin_result env = None \<and> send_result env = None \<longrightarrow>
       guard_and_move b env \<lparr>guild_id = channel_guild ch, channel_id = c, pin_mode = m\<rparr>
           (candidate m pins)
         = (None, [Unpin (message_id (candidate m pins)),
                   Send c (create_pin_embed (candidate m pins)), LogInfo],
            b\<lparr>guard_stack := [message_id (candidate m pins)]\<rparr>)"
    by (simp add: guard_and_move_def guard_check_empty Let_def)
  with h show ?thesis
    by (simp add: select_pin_oldest [OF ne] select_pin_newest [OF ne] candidate_def Let_def)
qed

theorem C3_candidate_selection_witness:
  "on_guild_channel_pins_update example_bot
     (example_platform (replicate 48 (example_message 11) @ [example_message 22])) example_channel
   = (None,
      [FetchPins 5, Unpin 22, Send 100 (create_pin_embed (example_message 22)), LogInfo],
      \<lparr>db_connection = [1 \<mapsto> (100, 1)], guard_stack = [22]\<rparr>)
   \<and> select_pin newest (replicate 48 (example_message 11) @ [example_message 22])
       = Inr (example_message 11)"
proof -
  note inst = C3_candidate_selection [of example_bot example_channel 100 oldest
      "example_platform (replicate 48 (example_message 11) @ [example_message 22])"
      "replicate 48 (example_message 11) @ [example_message 22]"]
  show ?thesis
    using inst [THEN conjunct2, THEN conjunct1]
      inst [THEN conjunct2, THEN conjunct2, THEN conjunct2]
    by simp
qed

text \<open>
  Claim C7: the guard stack holds at most one element at all times. From the empty stack,
  every sequence of guard checks (a pop followed by the conditional append) leaves zero or
  one identifier, and so does every sequence of events (pins updates and commands)
  delivered to a bot that starts with the empty guard, whatever its table holds.
\<close>

theorem C7_guard_holds_at_most_one:
  "length (run_guard [] pin_ids) \<le> 1
   \<and> length (guard_stack (run_events (init_bot conn) evs)) \<le> 1"
  using run_guard_length [of "[]" pin_ids] run_events_stack [of "init_bot conn" evs]
  by (simp add: init_bot_def)

text \<open>
  Claim C2: starting from the empty guard, with a location stored for the guild, three
  handler runs in a row on lists of at least 49 pins, where \<open>select_pin\<close> picks messages
  with the identifiers x, x and y: the first
  unpins x and leaves x on the guard; the second makes no call but the fetch of the pins
  and empties the guard; the third unpins y. (y need not differ from x.)
\<close>

theorem C2_duplicate_event_guard:
  assumes db: "db_connection b (channel_guild ch) = Some (c, PinMode_value m)"
    and empty: "guard_stack b = []"
    and e1: "pins_result env1 = Inr pins1" "49 \<le> length pins1" "is_text_channel env1 c"
    and e2: "pins_result env2 = Inr pins2" "49 \<le> length pins2" "is_text_channel env2 c"
    and e3: "pins_result env3 = Inr pins3" "49 \<le> length pins3" "is_text_channel env3 c"
    and s1: "select_pin m pins1 = Inr pin1" "message_id pin1 = x"
    and s2: "select_pin m pins2 = Inr pin2" "message_id pin2 = x"
    and s3: "select_pin m pins3 = Inr pin3" "message_id pin3 = y"
  shows "(case on_guild_channel_pins_update b env1 ch of (r1, acts1, b1) \<Rightarrow>
          case on_guild_channel_pins_update b1 env2 ch of (r2, acts2, b2) \<Rightarrow>
          case on_guild_channel_pins_update b2 env3 ch of (r3, acts3, b3) \<Rightarrow>
            Unpin x \<in> set acts1 \<and> guard_stack b1 = [x]
            \<and> r2 = None \<and> acts2 = [FetchPins (channel_ident ch)] \<and> guard_stack b2 = []
            \<and> Unpin y \<in> set acts3 \<and> guard_stack b3 = [y])"
proof -
  have x1: "message_id (candidate m pins1) = x"
  proof -
    from e1(2) have "pins1 \<noteq> []" by auto
    then have "select_pin m pins1 = Inr (candidate m pins1)" by (rule select_pin_candidate)
    with s1 show ?thesis by simp
  qed
  have x2: "message_id (candidate m pins2) = x"
  proof -
    from e2(2) have "pins2 \<noteq> []" by auto
    then have "select_pin m pins2 = Inr (candidate m pins2)" by (rule select_pin_candidate)
    with s2 show ?thesis by simp
  qed
  have y3: "message_id (candidate m pins3) = y"
  proof -
    from e3(2) have "pins3 \<noteq> []" by auto
    then have "select_pin m pins3 = Inr (candidate m pins3)" by (rule select_pin_candidate)
    with s3 show ?thesis by simp
  qed
  have g1: "guard_check (guard_stack b) (message_id (candidate m pins1)) = ([x], True)"
    by (simp add: empty x1 guard_check_empty)
  obtain r1 acts1 where
    h1: "on_guild_channel_pins_update b env1 ch
           = (r1, FetchPins (channel_ident ch) # acts1, b\<lparr>guard_stack := [x]\<rparr>)"
    and u1: "Unpin x \<in> set acts1"
    using handler_proceeds [OF db e1 g1] x1 by auto
  let ?b1 = "b\<lparr>guard_stack := [x]\<rparr>"
  have db1: "db_connection ?b1 (channel_guild ch) = Some (c, PinMode_value m)"
    using db by simp
  have g2: "guard_check (guard_stack ?b1) (message_id (candidate m pins2)) = ([], False)"
    by (simp add: x2 guard_check_single)
  have h2: "on_guild_channel_pins_update ?b1 env2 ch
           = (None, [FetchPins (channel_ident ch)], ?b1\<lparr>guard_stack := []\<rparr>)"
    by (rule handler_suppressed [OF db1 e2 g2])
  let ?b2 = "?b1\<lparr>guard_stack := []\<rparr>"
  have db2: "db_connection ?b2 (channel_guild ch) = Some (c, PinMode_value m)"
    using db by simp
  have g3: "guard_check (guard_stack ?b2) (message_id (candidate m pins3)) = ([y], True)"
    by (simp add: y3 guard_check_empty)
  obtain r3 acts3 where
    h3: "on_guild_channel_pins_update ?b2 env3 ch
           = (r3, FetchPins (channel_ident ch) # acts3, ?b2\<lparr>guard_stack := [y]\<rparr>)"
    and u3: "Unpin y \<in> set acts3"
    using handler_proceeds [OF db2 e3 g3] y3 by auto
  show ?thesis
    using u1 u3 h1 h2 h3 by simp
qed

theorem C2_duplicate_event_guard_witness:
  "(case on_guild_channel_pins_update example_bot
           (example_platform (replicate 49 (example_message 11))) example_channel of
      (r1, acts1, b1) \<Rightarrow>
    case on_guild_channel_pins_update b1
           (example_platform (replicate 49 (example_message 11))) example_channel of
      (r2, acts2, b2) \<Rightarrow>
    case on_guild_channel_pins_update b2
           (example_platform (replicate 49 (example_message 22))) example_channel of
      (r3, acts3, b3) \<Rightarrow>
        Unpin 11 \<in> set acts1 \<and> guard_stack b1 = [11]
        \<and> r2 = None \<and> acts2 = [FetchPins 5] \<and> guard_stack b2 = []
        \<and> Unpin 22 \<in> set acts3 \<and> guard_stack b3 = [22])"
  using C2_duplicate_event_guard [where b = example_bot and ch = example_channel and c = 100
      and m = oldest
      and ?env1.0 = "example_platform (replicate 49 (example_message 11))"
      and ?pins1.0 = "replicate 49 (example_message 11)"
      and ?env2.0 = "example_platform (replicate 49 (example_message 11))"
      and ?pins2.0 = "replicate 49 (example_message 11)"
      and ?env3.0 = "example_platform (replicate 49 (example_message 22))"
      and ?pins3.0 = "replicate 49 (example_message 22)"
      and ?pin1.0 = "example_message 11" and ?pin2.0 = "example_message 11"
      and ?pin3.0 = "example_message 22" and x = 11 and y = 22]
  by (simp add: select_pin_def py_index_def)

text \<open>
  Claim C10: a guard check that pops an identifier different from the current pin's gives
  back the stack without pushing the current one. So, starting from the empty guard, three
  handler runs in a row on lists of at least 49 pins, where \<open>select_pin\<close> picks messages
  with the identifiers x, y and y, x different from y: the first leaves x on the guard, the second pops it, unpins y and
  leaves the guard empty, and the third, the repeat of y, unpins y again.
\<close>

theorem C10_differing_pop_pushes_nothing:
  assumes db: "db_connection b (channel_guild ch) = Some (c, PinMode_value m)"
    and empty: "guard_stack b = []"
    and e1: "pins_result env1 = Inr pins1" "49 \<le> length pins1" "is_text_channel env1 c"
    and e2: "pins_result env2 = Inr pins2" "49 \<le> length pins2" "is_text_channel env2 c"
    and e3: "pins_result env3 = Inr pins3" "49 \<le> length pins3" "is_text_channel env3 c"
    and s1: "select_pin m pins1 = Inr pin1" "message_id pin1 = x"
    and s2: "select_pin m pins2 = Inr pin2" "message_id pin2 = y"
    and s3: "select_pin m pins3 = Inr pin3" "message_id pin3 = y"
    and diff: "x \<noteq> y"
  shows "guard_check (stack @ [x]) y = (stack, True)
       \<and> (case on_guild_channel_pins_update b env1 ch of (r1, acts1, b1) \<Rightarrow>
          case on_guild_channel_pins_update b1 env2 ch of (r2, acts2, b2) \<Rightarrow>
          case on_guild_channel_pins_update b2 env3 ch of (r3, acts3, b3) \<Rightarrow>
            Unpin x \<in> set acts1 \<and> guard_stack b1 = [x]
            \<and> Unpin y \<in> set acts2 \<and> guard_stack b2 = []
            \<and> Unpin y \<in> set acts3 \<and> guard_stack b3 = [y])"
proof -
  have x1: "message_id (candidate m pins1) = x"
  proof -
    from e1(2) have "pins1 \<noteq> []" by auto
    then have "select_pin m pins1 = Inr (candidate m pins1)" by (rule select_pin_candidate)
    with s1 show ?thesis by simp
  qed
  have y2: "message_id (candidate m pins2) = y"
  proof -
    from e2(2) have "pins2 \<noteq> []" by auto
    then have "select_pin m pins2 = Inr (candidate m pins2)" by (rule select_pin_candidate)
    with s2 show ?thesis by simp
  qed
  have y3: "message_id (candidate m pins3) = y"
  proof -
    from e3(2) have "pins3 \<noteq> []" by auto
    then have "select_pin m pins3 = Inr (candidate m pins3)" by (rule select_pin_candidate)
    with s3 show ?thesis by simp
  qed
  have g0: "guard_check (stack @ [x]) y = (stack, True)"
    using diff by (simp add: guard_check_snoc)
  have g1: "guard_check (guard_stack b) (message_id (candidate m pins1)) = ([x], True)"
    by (simp add: empty x1 guard_check_empty)
  obtain r1 acts1 where
    h1: "on_guild_channel_pins_update b env1 ch
           = (r1, FetchPins (channel_ident ch) # acts1, b\<lparr>guard_stack := [x]\<rparr>)"
    and u1: "Unpin x \<in> set acts1"
    using handler_proceeds [OF db e1 g1] x1 by auto
  let ?b1 = "b\<lparr>guard_stack := [x]\<rparr>"
  have db1: "db_connection ?b1 (channel_guild ch) = Some (c, PinMode_value m)"
    using db by simp
  have g2: "guard_check (guard_stack ?b1) (message_id (candidate m pins2)) = ([], True)"
    using diff by (simp add: y2 guard_check_single)
  obtain r2 acts2 where
    h2: "on_guild_channel_pins_update ?b1 env2 ch
           = (r2, FetchPins (channel_ident ch) # acts2, ?b1\<lparr>guard_stack := []\<rparr>)"
    and u2: "Unpin y \<in> set acts2"
    using handler_proceeds [OF db1 e2 g2] y2 by auto
  let ?b2 = "?b1\<lparr>guard_stack := []\<rparr>"
  have db2: "db_connection ?b2 (channel_guild ch) = Some (c, PinMode_value m)"
    using db by simp
  have g3: "guard_check (guard_stack ?b2) (message_id (candidate m pins3)) = ([y], True)"
    by (simp add: y3 guard_check_empty)
  obtain r3 acts3 where
    h3: "on_guild_channel_pins_update ?b2 env3 ch
           = (r3, FetchPins (channel_ident ch) # acts3, ?b2\<lparr>guard_stack := [y]\<rparr>)"
    and u3: "Unpin y \<in> set acts3"
    using handler_proceeds [OF db2 e3 g3] y3 by auto
  show ?thesis
    using u1 u2 u3 g0 h1 h2 h3 by simp
qed

theorem C10_differing_pop_pushes_nothing_witness:
  "guard_check [11] 22 = ([], True)
   \<and> (case on_guild_channel_pins_update example_bot
           (example_platform (replicate 49 (example_message 11))) example_channel of
      (r1, acts1, b1) \<Rightarrow>
    case on_guild_channel_pins_update b1
           (example_platform (replicate 49 (example_message 22))) example_channel of
      (r2, acts2, b2) \<Rightarrow>
    case on_guild_channel_pins_update b2
           (example_platform (replicate 49 (example_message 22))) example_channel of
      (r3, acts3, b3) \<Rightarrow>
        Unpin 11 \<in> set acts1 \<and> guard_stack b1 = [11]
        \<and> Unpin 22 \<in> set acts2 \<and> guard_stack b2 = []
        \<and> Unpin 22 \<in> set acts3 \<and> guard_stack b3 = [22])"
  using C10_differing_pop_pushes_nothing [where b = example_bot and ch = example_channel
      and c = 100 and m = oldest
      and ?env1.0 = "example_platform (replicate 49 (example_message 11))"
      and ?pins1.0 = "replicate 49 (example_message 11)"
      and ?env2.0 = "example_platform (replicate 49 (example_message 22))"
      and ?pins2.0 = "replicate 49 (example_message 22)"
      and ?env3.0 = "example_platform (replicate 49 (example_message 22))"
      and ?pins3.0 = "replicate 49 (example_message 22)"
      and ?pin1.0 = "example_message 11" and ?pin2.0 = "example_message 22"
      and ?pin3.0 = "example_message 22" and x = 11 and y = 22 and stack = "[]"]
  by (simp add: select_pin_def py_index_def)

end
